theory Spec2Isabelle
  imports Main "HOL-Library.Signed_Division"
begin

section \<open>Spot welder controller: phase-angle triac firing on an Arduino Nano\<close>

text \<open>
  The firmware \<^verbatim>\<open>Spot_Welder_Firmware_ino.ino\<close> has two execution contexts: the main
  program (\<^verbatim>\<open>setup\<close>, then \<^verbatim>\<open>loop\<close> for ever) and the zero-crossing interrupt
  service routine \<^verbatim>\<open>zeroCrossISR\<close>, which preempts the main program between any two of
  its statements and runs to completion. The embedding has two layers:
  \<^item> each source function as a state transformer on the record \<open>state\<close> (globals, output
    pins, millisecond clock, and the trace of hardware calls);
  \<^item> a small-step machine that interleaves the statements of the main program with the
    statements of the interrupt routine.
\<close>

subsection \<open>Machine integers\<close>

text \<open>
  On the ATmega328 an \<^verbatim>\<open>int\<close> has 16 bits, a \<^verbatim>\<open>long\<close> 32 bits. Values are
  modelled as \<open>int\<close> throughout; a store into an \<^verbatim>\<open>int\<close> variable wraps to 16 bits (two's
  complement), a conversion to \<^verbatim>\<open>unsigned int\<close> or \<^verbatim>\<open>unsigned long\<close> reduces
  modulo \<open>2^16\<close> or \<open>2^32\<close>.
\<close>

definition wrap16 :: "int \<Rightarrow> int" where
  "wrap16 v = (v + 32768) mod 65536 - 32768"

definition to_uint :: "int \<Rightarrow> int" where
  "to_uint v = v mod 65536"

definition to_ulong :: "int \<Rightarrow> int" where
  "to_ulong v = v mod 4294967296"

definition in_long :: "int \<Rightarrow> bool" where
  "in_long v \<longleftrightarrow> - 2147483648 \<le> v \<and> v \<le> 2147483647"

text \<open>
  \<^verbatim>\<open>long map(long x, long in_min, long in_max, long out_min, long out_max)\<close> of the
  Arduino core (\<^verbatim>\<open>WMath.cpp\<close>):
  \<^verbatim>\<open>return (x - in_min) * (out_max - out_min) / (in_max - in_min) + out_min;\<close>
  The division of C truncates towards zero (\<open>sdiv\<close>). The arithmetic is done in
  \<^verbatim>\<open>long\<close>; lemma \<open>map_long_fits\<close> below shows that for the three calls of the
  firmware no intermediate value leaves the range of a \<^verbatim>\<open>long\<close>, whatever 16-bit
  value \<open>x\<close> has.
\<close>

definition map_long :: "int \<Rightarrow> int \<Rightarrow> int \<Rightarrow> int \<Rightarrow> int \<Rightarrow> int" where
  "map_long x in_min in_max out_min out_max =
     ((x - in_min) * (out_max - out_min)) sdiv (in_max - in_min) + out_min"

text \<open>No step of \<^verbatim>\<open>map\<close> overflows a \<^verbatim>\<open>long\<close> or divides by zero.\<close>

definition map_fits :: "int \<Rightarrow> int \<Rightarrow> int \<Rightarrow> int \<Rightarrow> int \<Rightarrow> bool" where
  "map_fits x in_min in_max out_min out_max \<longleftrightarrow>
     in_long (x - in_min) \<and> in_long (out_max - out_min) \<and>
     in_long ((x - in_min) * (out_max - out_min)) \<and>
     in_long (in_max - in_min) \<and> in_max - in_min \<noteq> 0 \<and>
     in_long (((x - in_min) * (out_max - out_min)) sdiv (in_max - in_min)) \<and>
     in_long (map_long x in_min in_max out_min out_max)"

subsection \<open>Constants of the sketch\<close>

definition PIN_ZERO_CROSS :: int where "PIN_ZERO_CROSS = 2"
definition PIN_TRIAC :: int where "PIN_TRIAC = 3"
definition PIN_FOOT_SW :: int where "PIN_FOOT_SW = 4"
definition DEBOUNCE_MS :: int where "DEBOUNCE_MS = 500"

text \<open>The half-cycle of 50 Hz mains in microseconds, as the comments at lines 60 and 102
  of the sketch give it.\<close>

definition HALF_CYCLE_US :: int where "HALF_CYCLE_US = 10000"

subsection \<open>State and hardware calls\<close>

datatype level = LOW | HIGH

datatype pin_mode = INPUT | OUTPUT | INPUT_PULLUP

datatype event =
    PinMode int pin_mode
  | AttachInterrupt int
  | SetBrightness int
  | SetSegments "int list"
  | ShowNumberDecEx int int bool
  | DigitalWrite int level
  | Delay int
  | DelayMicroseconds int

text \<open>
  The global variables of the sketch, the level of every output pin, the time since reset
  in milliseconds (\<open>now\<close>, not wrapped; \<^verbatim>\<open>millis()\<close> reads it modulo \<open>2^32\<close>), and the
  hardware calls made so far, oldest first.
\<close>

record state =
  zeroCrossDetected :: bool
  firingDelay :: int
  weldingActive :: bool
  setTimeVal :: int
  setPowerVal :: int
  lastWeldTime :: int
  pins :: "int \<Rightarrow> level"
  now :: int
  trace :: "event list"

definition emit :: "event \<Rightarrow> state \<Rightarrow> state" where
  "emit e s = s\<lparr>trace := trace s @ [e]\<rparr>"

definition digitalWrite :: "int \<Rightarrow> level \<Rightarrow> state \<Rightarrow> state" where
  "digitalWrite pin v s = emit (DigitalWrite pin v) (s\<lparr>pins := (pins s)(pin := v)\<rparr>)"

text \<open>\<^verbatim>\<open>delayMicroseconds(unsigned int us)\<close>: a busy-wait, recorded in the trace.\<close>

definition delayMicroseconds :: "int \<Rightarrow> state \<Rightarrow> state" where
  "delayMicroseconds us s = emit (DelayMicroseconds us) s"

text \<open>\<^verbatim>\<open>delay(unsigned long ms)\<close>: blocks the main program until \<open>ms\<close> milliseconds
  have gone by.\<close>

definition delay :: "int \<Rightarrow> state \<Rightarrow> state" where
  "delay ms s = emit (Delay ms) (s\<lparr>now := now s + ms\<rparr>)"

definition millis :: "state \<Rightarrow> int" where
  "millis s = now s mod 4294967296"

text \<open>The state at reset: the initialisers of lines 26 to 32, every pin low, time 0.\<close>

definition reset :: state where
  "reset = \<lparr>zeroCrossDetected = False, firingDelay = 0, weldingActive = False,
            setTimeVal = 0, setPowerVal = 0, lastWeldTime = 0,
            pins = (\<lambda>_. LOW), now = 0, trace = []\<rparr>"

subsection \<open>The functions of the sketch\<close>

text \<open>\<^verbatim>\<open>setup\<close>, lines 34 to 54 (\<open>setup\<close> is a keyword of Isabelle, hence the
  suffix). The segment masks are those of the TM1637 library
  (\<^verbatim>\<open>SEG_A = 1\<close> up to \<^verbatim>\<open>SEG_G = 64\<close>): \<open>118\<close> is the letter H, \<open>48\<close> the letter I.\<close>

definition setup_sketch :: "state \<Rightarrow> state" where
  "setup_sketch s =
    (let s = emit (PinMode PIN_TRIAC OUTPUT) s;
         s = digitalWrite PIN_TRIAC LOW s;
         s = emit (PinMode PIN_FOOT_SW INPUT_PULLUP) s;
         s = emit (PinMode PIN_ZERO_CROSS INPUT) s;
         s = emit (AttachInterrupt PIN_ZERO_CROSS) s;
         s = emit (SetBrightness 15) s;
         s = emit (SetSegments [118, 48, 0, 0]) s
     in delay 1000 s)"

text \<open>\<^verbatim>\<open>zeroCrossISR\<close>, lines 57 to 76.\<close>

definition zeroCrossISR :: "state \<Rightarrow> state" where
  "zeroCrossISR s =
    (if weldingActive s then
       (let s = (if firingDelay s > 0
                 then delayMicroseconds (to_uint (firingDelay s)) s else s);
            s = digitalWrite PIN_TRIAC HIGH s;
            s = delayMicroseconds 50 s
        in digitalWrite PIN_TRIAC LOW s)
     else s)"

text \<open>The right-hand side of line 105,
  \<^verbatim>\<open>firingDelay = map(setPowerVal, 100, 10, 100, 8500)\<close>, as a function of the power
  setting; the result is stored into an \<^verbatim>\<open>int\<close>.\<close>

definition computeFiring :: "int \<Rightarrow> int" where
  "computeFiring powerPercent = wrap16 (map_long powerPercent 100 10 100 8500)"

text \<open>\<^verbatim>\<open>readPotentiometers\<close>, lines 91 to 106. The two results of \<^verbatim>\<open>analogRead\<close>
  are parameters.\<close>

definition readPotentiometers :: "int \<Rightarrow> int \<Rightarrow> state \<Rightarrow> state" where
  "readPotentiometers rawTime rawPower s =
    (let s = s\<lparr>setTimeVal := wrap16 (map_long rawTime 0 1023 1 50)\<rparr>;
         s = s\<lparr>setPowerVal := wrap16 (map_long rawPower 0 1023 10 100)\<rparr>
     in s\<lparr>firingDelay := computeFiring (setPowerVal s)\<rparr>)"

text \<open>\<^verbatim>\<open>updateDisplay\<close>, lines 108 to 113: \<^verbatim>\<open>0b01000000\<close> is 64, the colon bit.\<close>

definition updateDisplay :: "state \<Rightarrow> state" where
  "updateDisplay s =
    (let dispNum = wrap16 (wrap16 (setTimeVal s * 100) + setPowerVal s)
     in emit (ShowNumberDecEx dispNum 64 True) s)"

text \<open>\<^verbatim>\<open>performWeld\<close>, lines 115 to 126, as the main program runs it when no
  interrupt arrives.\<close>

definition performWeld :: "state \<Rightarrow> state" where
  "performWeld s =
    (let weldDuration = to_ulong (wrap16 (setTimeVal s * 20));
         s = s\<lparr>weldingActive := True\<rparr>;
         s = delay weldDuration s;
         s = s\<lparr>weldingActive := False\<rparr>
     in digitalWrite PIN_TRIAC LOW s)"

text \<open>The test of line 84: \<^verbatim>\<open>millis() - lastWeldTime > DEBOUNCE_MS\<close>, in
  \<^verbatim>\<open>unsigned long\<close>.\<close>

definition debounced :: "state \<Rightarrow> bool" where
  "debounced s \<longleftrightarrow>
     (millis s - lastWeldTime s) mod 4294967296 > DEBOUNCE_MS mod 4294967296"

text \<open>One pass of \<^verbatim>\<open>loop\<close>, lines 78 to 89. The result of
  \<^verbatim>\<open>digitalRead(PIN_FOOT_SW)\<close> is the parameter \<open>footSw\<close>.\<close>

definition loop :: "int \<Rightarrow> int \<Rightarrow> level \<Rightarrow> state \<Rightarrow> state" where
  "loop rawTime rawPower footSw s =
    (let s = readPotentiometers rawTime rawPower s;
         s = updateDisplay s
     in if footSw = LOW then
          (if debounced s then
             (let s = performWeld s in s\<lparr>lastWeldTime := millis s\<rparr>)
           else s)
        else s)"

subsection \<open>Reading the trace\<close>

text \<open>The blocking delays of the main program and the busy-waits, read off a trace.\<close>

fun delays :: "event list \<Rightarrow> int list" where
  "delays [] = []"
| "delays (Delay ms # es) = ms # delays es"
| "delays (e # es) = delays es"

fun busy_us :: "event list \<Rightarrow> int" where
  "busy_us [] = 0"
| "busy_us (DelayMicroseconds us # es) = us + busy_us es"
| "busy_us (e # es) = busy_us es"

text \<open>What the interrupt routine may do to the hardware: pulse the triac pin and wait.\<close>

fun isr_event :: "event \<Rightarrow> bool" where
  "isr_event (DigitalWrite pin v) = (pin = PIN_TRIAC)"
| "isr_event (DelayMicroseconds us) = True"
| "isr_event e = False"

subsection \<open>The main program interleaved with the interrupt routine\<close>

text \<open>
  The program counter of the main program stands before one statement of \<^verbatim>\<open>setup\<close>
  or of \<^verbatim>\<open>loop\<close> (with \<^verbatim>\<open>readPotentiometers\<close>, \<^verbatim>\<open>updateDisplay\<close> and
  \<^verbatim>\<open>performWeld\<close> inlined), one point for each write of a global variable or
  hardware call:
  \<^item> \<open>S_pinTriac\<close>: line 35; \<open>S_triacLow\<close>: line 36; \<open>S_pinFoot\<close>: line 38; \<open>S_pinZero\<close>:
    line 39; \<open>S_attach\<close>: line 42; \<open>S_brightness\<close>: line 44; \<open>S_segments\<close>: line 52;
    \<open>S_delay\<close>: line 53;
  \<^item> \<open>L_readTime\<close>: lines 94 and 95; \<open>L_readPower\<close>: lines 98 and 99; \<open>L_firing\<close>: line 105;
  \<^item> \<open>L_display\<close>: lines 111 and 112; \<open>L_footSw\<close>: line 83; \<open>L_debounce\<close>: line 84;
  \<^item> \<open>W_duration\<close>: line 118; \<open>W_arm\<close>: line 120; \<open>W_delay\<close>: line 121, the main program
    stays here while \<^verbatim>\<open>delay\<close> blocks; \<open>W_disarm\<close>: line 122; \<open>W_triacLow\<close>: line 125;
  \<^item> \<open>L_stamp\<close>: line 86, \<^verbatim>\<open>performWeld\<close> has returned.
  The program counter of the interrupt routine is \<open>I_none\<close> outside it, and stands before
  the test of line 58 (\<open>I_test\<close>), the wait of lines 67 to 69 (\<open>I_wait\<close>), and lines 72
  (\<open>I_high\<close>), 73 (\<open>I_pulse\<close>) and 74 (\<open>I_low\<close>) inside it.
\<close>

datatype mpc =
    S_pinTriac | S_triacLow | S_pinFoot | S_pinZero | S_attach | S_brightness | S_segments
  | S_delay
  | L_readTime | L_readPower | L_firing | L_display | L_footSw | L_debounce
  | W_duration | W_arm | W_delay | W_disarm | W_triacLow | L_stamp

datatype ipc = I_none | I_test | I_wait | I_high | I_pulse | I_low

record machine =
  st :: state
  mpc :: mpc
  ipc :: ipc
  weldDuration :: int

text \<open>One statement of the main program; \<open>a\<close> is what \<^verbatim>\<open>analogRead\<close> would return at
  this moment, \<open>d\<close> what \<^verbatim>\<open>digitalRead(PIN_FOOT_SW)\<close> would.\<close>

definition main_step :: "int \<Rightarrow> level \<Rightarrow> machine \<Rightarrow> machine" where
  "main_step a d m =
    (case mpc m of
       S_pinTriac \<Rightarrow> m\<lparr>st := emit (PinMode PIN_TRIAC OUTPUT) (st m), mpc := S_triacLow\<rparr>
     | S_triacLow \<Rightarrow> m\<lparr>st := digitalWrite PIN_TRIAC LOW (st m), mpc := S_pinFoot\<rparr>
     | S_pinFoot \<Rightarrow> m\<lparr>st := emit (PinMode PIN_FOOT_SW INPUT_PULLUP) (st m), mpc := S_pinZero\<rparr>
     | S_pinZero \<Rightarrow> m\<lparr>st := emit (PinMode PIN_ZERO_CROSS INPUT) (st m), mpc := S_attach\<rparr>
     | S_attach \<Rightarrow> m\<lparr>st := emit (AttachInterrupt PIN_ZERO_CROSS) (st m), mpc := S_brightness\<rparr>
     | S_brightness \<Rightarrow> m\<lparr>st := emit (SetBrightness 15) (st m), mpc := S_segments\<rparr>
     | S_segments \<Rightarrow> m\<lparr>st := emit (SetSegments [118, 48, 0, 0]) (st m), mpc := S_delay\<rparr>
     | S_delay \<Rightarrow> m\<lparr>st := delay 1000 (st m), mpc := L_readTime\<rparr>
     | L_readTime \<Rightarrow>
         m\<lparr>st := (st m)\<lparr>setTimeVal := wrap16 (map_long a 0 1023 1 50)\<rparr>, mpc := L_readPower\<rparr>
     | L_readPower \<Rightarrow>
         m\<lparr>st := (st m)\<lparr>setPowerVal := wrap16 (map_long a 0 1023 10 100)\<rparr>, mpc := L_firing\<rparr>
     | L_firing \<Rightarrow>
         m\<lparr>st := (st m)\<lparr>firingDelay := computeFiring (setPowerVal (st m))\<rparr>, mpc := L_display\<rparr>
     | L_display \<Rightarrow> m\<lparr>st := updateDisplay (st m), mpc := L_footSw\<rparr>
     | L_footSw \<Rightarrow> m\<lparr>mpc := (if d = LOW then L_debounce else L_readTime)\<rparr>
     | L_debounce \<Rightarrow> m\<lparr>mpc := (if debounced (st m) then W_duration else L_readTime)\<rparr>
     | W_duration \<Rightarrow>
         m\<lparr>weldDuration := to_ulong (wrap16 (setTimeVal (st m) * 20)), mpc := W_arm\<rparr>
     | W_arm \<Rightarrow> m\<lparr>st := (st m)\<lparr>weldingActive := True\<rparr>, mpc := W_delay\<rparr>
     | W_delay \<Rightarrow> m\<lparr>st := delay (weldDuration m) (st m), mpc := W_disarm\<rparr>
     | W_disarm \<Rightarrow> m\<lparr>st := (st m)\<lparr>weldingActive := False\<rparr>, mpc := W_triacLow\<rparr>
     | W_triacLow \<Rightarrow> m\<lparr>st := digitalWrite PIN_TRIAC LOW (st m), mpc := L_stamp\<rparr>
     | L_stamp \<Rightarrow> m\<lparr>st := (st m)\<lparr>lastWeldTime := millis (st m)\<rparr>, mpc := L_readTime\<rparr>)"

text \<open>One statement of the interrupt routine.\<close>

definition isr_step :: "machine \<Rightarrow> machine" where
  "isr_step m =
    (case ipc m of
       I_none \<Rightarrow> m
     | I_test \<Rightarrow> m\<lparr>ipc := (if weldingActive (st m) then I_wait else I_none)\<rparr>
     | I_wait \<Rightarrow>
         m\<lparr>st := (if firingDelay (st m) > 0
                   then delayMicroseconds (to_uint (firingDelay (st m))) (st m) else st m),
            ipc := I_high\<rparr>
     | I_high \<Rightarrow> m\<lparr>st := digitalWrite PIN_TRIAC HIGH (st m), ipc := I_pulse\<rparr>
     | I_pulse \<Rightarrow> m\<lparr>st := delayMicroseconds 50 (st m), ipc := I_low\<rparr>
     | I_low \<Rightarrow> m\<lparr>st := digitalWrite PIN_TRIAC LOW (st m), ipc := I_none\<rparr>)"

text \<open>
  What can happen next: the main program runs one statement (only outside the interrupt
  routine, which is not preempted), a rising edge on the zero-cross pin starts the
  interrupt routine (once line 42 has attached it; an edge that arrives inside the
  routine is served by a later \<open>ZeroCross\<close>), the interrupt routine runs one statement,
  or time goes by.
\<close>

definition attached :: "machine \<Rightarrow> bool" where
  "attached m \<longleftrightarrow> AttachInterrupt PIN_ZERO_CROSS \<in> set (trace (st m))"

datatype action = Main int level | ZeroCross | Isr | Tick int

fun exec :: "action \<Rightarrow> machine \<Rightarrow> machine" where
  "exec (Main a d) m = (if ipc m = I_none then main_step a d m else m)"
| "exec ZeroCross m = (if ipc m = I_none \<and> attached m then m\<lparr>ipc := I_test\<rparr> else m)"
| "exec Isr m = isr_step m"
| "exec (Tick ms) m = (if 0 \<le> ms then m\<lparr>st := (st m)\<lparr>now := now (st m) + ms\<rparr>\<rparr> else m)"

fun run :: "action list \<Rightarrow> machine \<Rightarrow> machine" where
  "run [] m = m"
| "run (a # as) m = run as (exec a m)"

text \<open>The machine at reset, before line 35.\<close>

definition boot :: machine where
  "boot = \<lparr>st = reset, mpc = S_pinTriac, ipc = I_none, weldDuration = 0\<rparr>"

text \<open>The eight statements of \<^verbatim>\<open>setup\<close>, with no interrupt.\<close>

definition setup_actions :: "action list" where
  "setup_actions =
     [Main 0 HIGH, Main 0 HIGH, Main 0 HIGH, Main 0 HIGH, Main 0 HIGH, Main 0 HIGH,
      Main 0 HIGH, Main 0 HIGH]"

text \<open>The actions that take the main program once through \<^verbatim>\<open>loop\<close> with no
  interrupt: the first two statements read the potentiometers, the fifth the foot switch;
  \<open>deb\<close> tells whether the test of line 84 succeeds.\<close>

definition loop_actions :: "int \<Rightarrow> int \<Rightarrow> level \<Rightarrow> bool \<Rightarrow> action list" where
  "loop_actions rt rp fs deb =
     [Main rt fs, Main rp fs, Main 0 fs, Main 0 fs] @
     (if fs = LOW then
        (if deb then [Main 0 LOW, Main 0 LOW, Main 0 LOW, Main 0 LOW, Main 0 LOW, Main 0 LOW,
                      Main 0 LOW, Main 0 LOW]
         else [Main 0 LOW, Main 0 LOW])
      else [Main 0 fs])"

text \<open>The global variables of the sketch (lines 26 to 32), as one value.\<close>

definition globals :: "state \<Rightarrow> bool \<times> int \<times> bool \<times> int \<times> int \<times> int" where
  "globals s = (zeroCrossDetected s, firingDelay s, weldingActive s,
                setTimeVal s, setPowerVal s, lastWeldTime s)"

text \<open>
  The invariant of the machine: the triac pin is high only between lines 72 and 74 of the
  interrupt routine; the interrupt routine is past its test only while the weld is
  active; the weld is active exactly while the main program is between lines 120 and 122.
\<close>

definition safe :: "machine \<Rightarrow> bool" where
  "safe m \<longleftrightarrow>
     (pins (st m) PIN_TRIAC = HIGH \<longrightarrow> ipc m = I_pulse \<or> ipc m = I_low) \<and>
     (ipc m \<noteq> I_none \<and> ipc m \<noteq> I_test \<longrightarrow> weldingActive (st m)) \<and>
     (weldingActive (st m) \<longleftrightarrow> mpc m = W_delay \<or> mpc m = W_disarm)"

text \<open>
  An example schedule from \<open>boot\<close>: \<^verbatim>\<open>setup\<close> runs, with a zero crossing before the
  interrupt is attached and one after; the potentiometers read 1023, the foot switch is
  engaged, the weld is armed; a zero crossing starts the interrupt routine, which is in
  the middle of its trigger pulse when the main program would go on (and cannot); the
  routine ends, the blocking delay ends, the weld is disarmed, and one more zero crossing
  arrives before line 125 is reached.
\<close>

definition weld_with_interrupts :: "action list" where
  "weld_with_interrupts =
     [Main 0 HIGH, Main 0 HIGH, ZeroCross, Isr, Main 0 HIGH, Main 0 HIGH, Main 0 HIGH,
      ZeroCross, Isr, Main 0 HIGH, Main 0 HIGH, Main 0 HIGH,
      Main 1023 LOW, Main 1023 LOW, Main 0 LOW, Main 0 LOW, Main 0 LOW, Main 0 LOW,
      Main 0 LOW, Main 0 LOW,
      ZeroCross, Isr, Isr, Isr, Isr, Main 0 LOW, Tick 1, Isr,
      Main 0 LOW, Main 0 LOW, ZeroCross, Isr]"

section \<open>Arithmetic of the two mappings\<close>

lemma sdiv_nonneg: "0 \<le> a \<Longrightarrow> 0 < b \<Longrightarrow> (a::int) sdiv b = a div b"
  by (simp add: signed_divide_int_def sgn_if)

lemma sdiv_neg_neg: "a \<le> 0 \<Longrightarrow> b < 0 \<Longrightarrow> (a::int) sdiv b = (- a) div (- b)"
  by (simp add: signed_divide_int_def sgn_if)

lemma wrap16_id: "- 32768 \<le> v \<Longrightarrow> v \<le> 32767 \<Longrightarrow> wrap16 v = v"
  by (simp add: wrap16_def)

lemma wrap16_add_left: "wrap16 (wrap16 a + b) = wrap16 (a + b)"
proof -
  have "((a + 32768) mod 65536 - 32768 + b + 32768) mod 65536
          = ((a + 32768) mod 65536 + b) mod 65536"
    by simp
  also have "\<dots> = (a + 32768 + b) mod 65536"
    by (rule mod_add_left_eq)
  finally show ?thesis
    by (simp add: wrap16_def algebra_simps)
qed

text \<open>The power-to-delay map of line 105 on inputs up to 100: the two negative factors
  of the truncating division cancel.\<close>

lemma map_power_eq:
  assumes "p \<le> 100"
  shows "map_long p 100 10 100 8500 = ((100 - p) * 8400) div 90 + 100"
proof -
  have "((p - 100) * 8400) sdiv (- 90) = (- ((p - 100) * 8400)) div (- (- 90))"
    using assms by (intro sdiv_neg_neg) (auto simp: mult_le_0_iff)
  also have "- ((p - 100) * 8400) = (100 - p) * 8400"
    by (simp add: algebra_simps)
  finally show ?thesis
    by (simp add: map_long_def)
qed

lemma computeFiring_eq:
  assumes "p \<le> 100" "- 250 \<le> p"
  shows "computeFiring p = ((100 - p) * 8400) div 90 + 100"
proof -
  have "0 \<le> ((100 - p) * 8400) div 90"
    using assms by simp
  moreover have "((100 - p) * 8400) div 90 \<le> (350 * 8400) div 90"
    using assms by (intro zdiv_mono1) auto
  ultimately show ?thesis
    using assms(1) by (simp add: computeFiring_def map_power_eq wrap16_id)
qed

lemma computeFiring_range:
  assumes "10 \<le> p" "p \<le> 100"
  shows "100 \<le> computeFiring p" "computeFiring p \<le> 8500"
proof -
  have "0 \<le> ((100 - p) * 8400) div 90"
    using assms by simp
  then show "100 \<le> computeFiring p"
    using assms by (simp add: computeFiring_eq)
  have "((100 - p) * 8400) div 90 \<le> (90 * 8400) div 90"
    using assms by (intro zdiv_mono1) auto
  then show "computeFiring p \<le> 8500"
    using assms by (simp add: computeFiring_eq)
qed

text \<open>The potentiometer maps of lines 95 and 99 on a reading of the 10-bit converter.\<close>

lemma map_raw_eq:
  assumes "0 \<le> r" "0 \<le> hi - lo"
  shows "map_long r 0 1023 lo hi = (r * (hi - lo)) div 1023 + lo"
  using assms by (simp add: map_long_def sdiv_nonneg)

lemma map_raw_bounds:
  assumes "0 \<le> r" "r \<le> 1023" "lo \<le> hi"
  shows "lo \<le> map_long r 0 1023 lo hi" "map_long r 0 1023 lo hi \<le> hi"
proof -
  have eq: "map_long r 0 1023 lo hi = (r * (hi - lo)) div 1023 + lo"
    using assms by (simp add: map_raw_eq)
  have "0 \<le> r * (hi - lo)"
    using assms by simp
  then have "0 \<le> (r * (hi - lo)) div 1023"
    by (simp add: pos_imp_zdiv_nonneg_iff)
  then show "lo \<le> map_long r 0 1023 lo hi"
    by (simp add: eq)
  have "r * (hi - lo) \<le> 1023 * (hi - lo)"
    using assms by (intro mult_right_mono) auto
  then have "(r * (hi - lo)) div 1023 \<le> (1023 * (hi - lo)) div 1023"
    by (rule zdiv_mono1) simp
  then show "map_long r 0 1023 lo hi \<le> hi"
    by (simp add: eq)
qed

lemma setTimeVal_range:
  assumes "0 \<le> r" "r \<le> 1023"
  shows "1 \<le> wrap16 (map_long r 0 1023 1 50)" "wrap16 (map_long r 0 1023 1 50) \<le> 50"
  using map_raw_bounds[OF assms, of 1 50] by (simp_all add: wrap16_id)

lemma setPowerVal_range:
  assumes "0 \<le> r" "r \<le> 1023"
  shows "10 \<le> wrap16 (map_long r 0 1023 10 100)" "wrap16 (map_long r 0 1023 10 100) \<le> 100"
  using map_raw_bounds[OF assms, of 10 100] by (simp_all add: wrap16_id)

lemma sdiv_bounds:
  assumes "- n \<le> a" "a \<le> n"
  shows "- n \<le> a sdiv b" "a sdiv b \<le> (n::int)"
  using sdiv_int_range[of a b] assms by auto

lemma map_long_fits:
  assumes "- 32768 \<le> x" "x \<le> 32767"
  shows "map_fits x 0 1023 1 50" "map_fits x 0 1023 10 100" "map_fits x 100 10 100 8500"
proof -
  have a: "- 1605632 \<le> (x * 49) sdiv 1023" "(x * 49) sdiv 1023 \<le> 1605632"
    by (rule sdiv_bounds; use assms in simp)+
  have b: "- 2949120 \<le> (x * 90) sdiv 1023" "(x * 90) sdiv 1023 \<le> 2949120"
    by (rule sdiv_bounds; use assms in simp)+
  have c: "- 276091200 \<le> ((x - 100) * 8400) sdiv (10 - 100)"
          "((x - 100) * 8400) sdiv (10 - 100) \<le> 276091200"
    by (rule sdiv_bounds; use assms in simp)+
  show "map_fits x 0 1023 1 50"
    using assms a by (simp add: map_fits_def in_long_def map_long_def)
  show "map_fits x 0 1023 10 100"
    using assms b by (simp add: map_fits_def in_long_def map_long_def)
  show "map_fits x 100 10 100 8500"
    unfolding map_fits_def in_long_def map_long_def using assms c by simp
qed

section \<open>The functions of the sketch, field by field\<close>

lemma delays_append: "delays (xs @ ys) = delays xs @ delays ys"
  by (induction xs rule: delays.induct) simp_all

lemma busy_us_append: "busy_us (xs @ ys) = busy_us xs + busy_us ys"
  by (induction xs rule: busy_us.induct) simp_all

lemmas prim_defs = emit_def digitalWrite_def delayMicroseconds_def delay_def millis_def

lemma readPotentiometers_fields:
  "setTimeVal (readPotentiometers rt rp s) = wrap16 (map_long rt 0 1023 1 50)"
  "setPowerVal (readPotentiometers rt rp s) = wrap16 (map_long rp 0 1023 10 100)"
  "firingDelay (readPotentiometers rt rp s) = computeFiring (wrap16 (map_long rp 0 1023 10 100))"
  "weldingActive (readPotentiometers rt rp s) = weldingActive s"
  "lastWeldTime (readPotentiometers rt rp s) = lastWeldTime s"
  "now (readPotentiometers rt rp s) = now s"
  "pins (readPotentiometers rt rp s) = pins s"
  "trace (readPotentiometers rt rp s) = trace s"
  by (simp_all add: readPotentiometers_def Let_def)

lemma updateDisplay_fields:
  "setTimeVal (updateDisplay s) = setTimeVal s"
  "setPowerVal (updateDisplay s) = setPowerVal s"
  "firingDelay (updateDisplay s) = firingDelay s"
  "weldingActive (updateDisplay s) = weldingActive s"
  "lastWeldTime (updateDisplay s) = lastWeldTime s"
  "now (updateDisplay s) = now s"
  "pins (updateDisplay s) = pins s"
  by (simp_all add: updateDisplay_def Let_def emit_def)

lemma performWeld_fields:
  "setTimeVal (performWeld s) = setTimeVal s"
  "setPowerVal (performWeld s) = setPowerVal s"
  "firingDelay (performWeld s) = firingDelay s"
  "weldingActive (performWeld s) = False"
  "lastWeldTime (performWeld s) = lastWeldTime s"
  "now (performWeld s) = now s + to_ulong (wrap16 (setTimeVal s * 20))"
  "pins (performWeld s) = (pins s)(PIN_TRIAC := LOW)"
  "trace (performWeld s) =
     trace s @ [Delay (to_ulong (wrap16 (setTimeVal s * 20))), DigitalWrite PIN_TRIAC LOW]"
  by (simp_all add: performWeld_def Let_def prim_defs)

lemma loop_firingDelay:
  "firingDelay (loop rt rp fs s) = firingDelay (readPotentiometers rt rp s)"
  by (simp add: loop_def Let_def updateDisplay_fields performWeld_fields)

lemma isr_busy:
  assumes "0 \<le> firingDelay t" "firingDelay t \<le> 8500"
  shows "busy_us (trace (zeroCrossISR t)) =
           busy_us (trace t) + (if weldingActive t then firingDelay t + 50 else 0)"
  using assms by (simp add: zeroCrossISR_def Let_def prim_defs busy_us_append to_uint_def)

lemmas eval_defs = readPotentiometers_def updateDisplay_def performWeld_def loop_def
  zeroCrossISR_def setup_sketch_def reset_def debounced_def computeFiring_def map_long_def
  wrap16_def to_uint_def to_ulong_def signed_divide_int_def Let_def prim_defs
  PIN_TRIAC_def PIN_FOOT_SW_def PIN_ZERO_CROSS_def DEBOUNCE_MS_def HALF_CYCLE_US_def

section \<open>The interleaved machine\<close>

text \<open>The invariant holds at reset and every action keeps it.\<close>

lemma safe_boot: "safe boot"
  by (simp add: safe_def boot_def reset_def)

lemma safe_main_step:
  assumes "safe m" "ipc m = I_none"
  shows "safe (main_step a d m)"
  using assms
  by (cases "mpc m") (simp_all add: safe_def main_step_def updateDisplay_fields prim_defs)

lemma safe_isr_step:
  assumes "safe m"
  shows "safe (isr_step m)"
  using assms
  by (cases "ipc m") (simp_all add: safe_def isr_step_def prim_defs, blast+)

lemma safe_exec:
  assumes "safe m"
  shows "safe (exec a m)"
proof (cases a)
  case (Main x d)
  then show ?thesis using assms by (simp add: safe_main_step)
next
  case ZeroCross
  then show ?thesis using assms by (auto simp: safe_def)
next
  case Isr
  then show ?thesis using assms by (simp add: safe_isr_step)
next
  case (Tick ms)
  then show ?thesis using assms by (auto simp: safe_def)
qed

lemma safe_run: "safe m \<Longrightarrow> safe (run acts m)"
  by (induction acts arbitrary: m) (simp_all add: safe_exec)

lemma safe_reachable: "safe (run acts boot)"
  by (rule safe_run) (rule safe_boot)

lemma inactive_low:
  assumes "safe m" "\<not> weldingActive (st m)"
  shows "pins (st m) PIN_TRIAC = LOW"
proof (cases "pins (st m) PIN_TRIAC")
  case LOW
  then show ?thesis .
next
  case HIGH
  with assms show ?thesis by (auto simp: safe_def)
qed

text \<open>
  The interrupt routine reads \<^verbatim>\<open>firingDelay\<close> (lines 67 and 68) only while the main
  program is blocked in the delay of line 121 or stands just after it, never while line
  105 writes it: the statements of the main program need no finer grain.
\<close>

lemma isr_reads_during_weld:
  assumes "ipc (run acts boot) = I_wait"
  shows "mpc (run acts boot) = W_delay \<or> mpc (run acts boot) = W_disarm"
proof -
  have "safe (run acts boot)"
    by (rule safe_reachable)
  then have "weldingActive (st (run acts boot))"
    using assms by (simp add: safe_def)
  with \<open>safe (run acts boot)\<close> show ?thesis
    by (simp add: safe_def)
qed

lemma run_append: "run (xs @ ys) m = run ys (run xs m)"
  by (induction xs arbitrary: m) simp_all

text \<open>The statements of the interrupt routine, run one after the other, do what
  \<open>zeroCrossISR\<close> does.\<close>

lemma isr_run:
  assumes "ipc m = I_none" "attached m"
  shows "run [ZeroCross, Isr, Isr, Isr, Isr, Isr] m = m\<lparr>st := zeroCrossISR (st m)\<rparr>"
proof (cases "weldingActive (st m)")
  case True
  with assms show ?thesis
    by (simp add: isr_step_def zeroCrossISR_def Let_def)
next
  case False
  with assms show ?thesis
    by (simp add: isr_step_def zeroCrossISR_def)
qed

text \<open>The statements of one pass of \<^verbatim>\<open>loop\<close>, run with no interrupt, do what
  \<open>loop\<close> does, and leave the main program at the head of the next pass.\<close>

lemma debounced_frame:
  "debounced (updateDisplay (readPotentiometers rt rp s)) = debounced s"
  by (simp add: debounced_def millis_def updateDisplay_fields readPotentiometers_fields)

lemma head_run:
  assumes "mpc m = L_readTime" "ipc m = I_none"
  shows "run [Main rt fs, Main rp fs, Main 0 fs, Main 0 fs] m =
               m\<lparr>st := updateDisplay (readPotentiometers rt rp (st m)), mpc := L_footSw\<rparr>"
    using assms by (simp add: main_step_def readPotentiometers_def Let_def)

lemma tail_high:
  assumes "ipc m = I_none" "mpc m = L_footSw" "fs \<noteq> LOW"
  shows "run [Main 0 fs] m = m\<lparr>mpc := L_readTime\<rparr>"
  using assms by (simp add: main_step_def)

lemma tail_bounce:
  assumes "ipc m = I_none" "mpc m = L_footSw" "\<not> debounced (st m)"
  shows "run [Main 0 LOW, Main 0 LOW] m = m\<lparr>mpc := L_readTime\<rparr>"
  using assms by (simp add: main_step_def)

lemma tail_weld:
  assumes "ipc m = I_none" "mpc m = L_footSw" "debounced (st m)"
  shows "st (run [Main 0 LOW, Main 0 LOW, Main 0 LOW, Main 0 LOW, Main 0 LOW, Main 0 LOW,
               Main 0 LOW, Main 0 LOW] m) =
           (performWeld (st m))\<lparr>lastWeldTime := millis (performWeld (st m))\<rparr>"
    and "mpc (run [Main 0 LOW, Main 0 LOW, Main 0 LOW, Main 0 LOW, Main 0 LOW, Main 0 LOW,
               Main 0 LOW, Main 0 LOW] m) = L_readTime"
    and "ipc (run [Main 0 LOW, Main 0 LOW, Main 0 LOW, Main 0 LOW, Main 0 LOW, Main 0 LOW,
               Main 0 LOW, Main 0 LOW] m) = I_none"
  using assms by (simp_all add: main_step_def performWeld_def Let_def)

lemma loop_run:
  assumes "mpc m = L_readTime" "ipc m = I_none"
  shows "st (run (loop_actions rt rp fs (debounced (st m))) m) = loop rt rp fs (st m) \<and>
         mpc (run (loop_actions rt rp fs (debounced (st m))) m) = L_readTime \<and>
         ipc (run (loop_actions rt rp fs (debounced (st m))) m) = I_none"
proof -
  let ?s = "updateDisplay (readPotentiometers rt rp (st m))"
  let ?m = "m\<lparr>st := ?s, mpc := L_footSw\<rparr>"
  have m': "ipc ?m = I_none" "mpc ?m = L_footSw" "st ?m = ?s"
    using assms by simp_all
  have deb: "debounced (st ?m) = debounced (st m)"
    by (simp add: debounced_frame)
  consider (high) "fs \<noteq> LOW" | (bounce) "fs = LOW" "\<not> debounced (st m)"
    | (weld) "fs = LOW" "debounced (st m)"
    by blast
  then show ?thesis
  proof cases
    case high
    then have "run (loop_actions rt rp fs (debounced (st m))) m = ?m\<lparr>mpc := L_readTime\<rparr>"
      by (simp only: loop_actions_def run_append head_run[OF assms] if_False
          tail_high[OF m'(1,2) high])
    with high show ?thesis
      using assms(2) by (simp add: loop_def Let_def)
  next
    case bounce
    then have "\<not> debounced (st ?m)"
      by (simp only: deb not_False_eq_True)
    from tail_bounce[OF m'(1,2) this] bounce
    have "run (loop_actions rt rp fs (debounced (st m))) m = ?m\<lparr>mpc := L_readTime\<rparr>"
      by (simp only: loop_actions_def run_append head_run[OF assms] if_True if_False
          not_True_eq_False not_False_eq_True simp_thms)
    with bounce show ?thesis
      using assms(2) by (simp add: loop_def Let_def debounced_frame)
  next
    case weld
    then have d: "debounced (st ?m)"
      by (simp only: deb)
    have eq: "run (loop_actions rt rp fs (debounced (st m))) m =
          run [Main 0 LOW, Main 0 LOW, Main 0 LOW, Main 0 LOW, Main 0 LOW, Main 0 LOW,
               Main 0 LOW, Main 0 LOW] ?m"
      using weld
      by (simp only: loop_actions_def run_append head_run[OF assms] if_True if_False
          not_True_eq_False not_False_eq_True simp_thms)
    show ?thesis
      unfolding eq using tail_weld[OF m'(1,2) d] weld
      by (simp add: loop_def Let_def debounced_frame)
  qed
qed

section \<open>The firing delay, the weld duration and the display\<close>

text \<open>
  Claim C3 (evaluation of the code where it departs from the claim). A power reading of
  1023 gives the power setting 100, and line 105 then publishes a firing delay of 100
  microseconds, not 0: the fourth argument of \<^verbatim>\<open>map\<close> is 100. The other end is as
  claimed (power 10 gives 8500), and half-way (power 55) the code gives 4300.
\<close>

theorem full_power_delay_is_100:
  "setPowerVal (readPotentiometers rawTime 1023 s) = 100 \<and>
   firingDelay (readPotentiometers rawTime 1023 s) = 100 \<and>
   computeFiring 100 = 100 \<and> computeFiring 55 = 4300 \<and> computeFiring 10 = 8500"
  by (simp add: readPotentiometers_fields computeFiring_def map_long_def wrap16_def
      signed_divide_int_def)

text \<open>
  Claim C4. For every raw power reading in \<open>[0, 1023]\<close>, the firing delay that one pass
  of \<^verbatim>\<open>loop\<close> publishes lies in \<open>[0, 8500]\<close> microseconds; with the 50
  microsecond trigger pulse it stays below the half-cycle of 10000 microseconds, and the
  interrupt routine run with that firing delay busy-waits for less than one half-cycle
  in all.
\<close>

theorem firingDelay_fits_half_cycle:
  assumes "0 \<le> rawPower" "rawPower \<le> 1023"
  shows "0 \<le> firingDelay (loop rawTime rawPower footSw s) \<and>
         firingDelay (loop rawTime rawPower footSw s) \<le> 8500 \<and>
         firingDelay (loop rawTime rawPower footSw s) + 50 < HALF_CYCLE_US \<and>
         (\<forall>t. firingDelay t = firingDelay (loop rawTime rawPower footSw s) \<longrightarrow>
              busy_us (trace (zeroCrossISR t)) - busy_us (trace t) < HALF_CYCLE_US)"
proof -
  let ?p = "wrap16 (map_long rawPower 0 1023 10 100)"
  have fd: "firingDelay (loop rawTime rawPower footSw s) = computeFiring ?p"
    by (simp add: loop_firingDelay readPotentiometers_fields)
  have r: "100 \<le> computeFiring ?p" "computeFiring ?p \<le> 8500"
    using setPowerVal_range[OF assms] by (auto intro: computeFiring_range)
  show ?thesis
    using r by (auto simp: fd isr_busy HALF_CYCLE_US_def)
qed

text \<open>
  Witness for C4: the reading 512 gives power 55 and firing delay 4300; the interrupt
  routine then waits 4350 microseconds.
\<close>

theorem firingDelay_fits_half_cycle_witness:
  "(0::int) \<le> 512 \<and> (512::int) \<le> 1023 \<and>
   firingDelay (loop 0 512 LOW (setup_sketch reset)) = 4300 \<and>
   firingDelay (loop 0 512 LOW (setup_sketch reset)) + 50 < HALF_CYCLE_US \<and>
   busy_us (trace (zeroCrossISR ((loop 0 512 LOW (setup_sketch reset))\<lparr>weldingActive := True\<rparr>)))
     - busy_us (trace ((loop 0 512 LOW (setup_sketch reset))\<lparr>weldingActive := True\<rparr>)) = 4350"
proof -
  have h: "(0::int) \<le> 512" "(512::int) \<le> 1023"
    by simp_all
  have e: "firingDelay (loop 0 512 LOW (setup_sketch reset)) = 4300"
    by (simp add: eval_defs)
  have b: "busy_us (trace (zeroCrossISR ((loop 0 512 LOW (setup_sketch reset))\<lparr>weldingActive := True\<rparr>)))
     - busy_us (trace ((loop 0 512 LOW (setup_sketch reset))\<lparr>weldingActive := True\<rparr>)) = 4350"
    by (simp add: eval_defs)
  from firingDelay_fits_half_cycle[OF h, of 0 LOW "setup_sketch reset"] e b show ?thesis
    by simp
qed

text \<open>
  Claim C5. For every time level in \<open>[1, 50]\<close>, \<^verbatim>\<open>performWeld\<close> blocks for
  the time level times 20 milliseconds, which lies in \<open>[20, 1000]\<close>; and every raw time
  reading in \<open>[0, 1023]\<close> is mapped to a time level in \<open>[1, 50]\<close>.
\<close>

theorem weld_duration:
  assumes "1 \<le> setTimeVal s" "setTimeVal s \<le> 50"
  shows "trace (performWeld s) =
           trace s @ [Delay (setTimeVal s * 20), DigitalWrite PIN_TRIAC LOW] \<and>
         now (performWeld s) = now s + setTimeVal s * 20 \<and>
         20 \<le> setTimeVal s * 20 \<and> setTimeVal s * 20 \<le> 1000 \<and>
         (\<forall>rawTime rawPower s0. 0 \<le> rawTime \<and> rawTime \<le> 1023 \<longrightarrow>
            1 \<le> setTimeVal (readPotentiometers rawTime rawPower s0) \<and>
            setTimeVal (readPotentiometers rawTime rawPower s0) \<le> 50)"
proof -
  have "to_ulong (wrap16 (setTimeVal s * 20)) = setTimeVal s * 20"
    using assms by (simp add: wrap16_id to_ulong_def)
  then show ?thesis
    using assms by (simp add: performWeld_fields readPotentiometers_fields setTimeVal_range)
qed

text \<open>
  Witness for C5: the raw reading 200 gives time level 10 and a weld of 200 ms.
\<close>

theorem weld_duration_witness:
  "1 \<le> setTimeVal (readPotentiometers 200 0 reset) \<and>
   setTimeVal (readPotentiometers 200 0 reset) \<le> 50 \<and>
   trace (performWeld (readPotentiometers 200 0 reset)) = [Delay 200, DigitalWrite PIN_TRIAC LOW] \<and>
   now (performWeld (readPotentiometers 200 0 reset)) = 200"
proof -
  have v: "setTimeVal (readPotentiometers 200 0 reset) = 10"
    by (simp add: eval_defs)
  have t: "trace (readPotentiometers 200 0 reset) = []" "now (readPotentiometers 200 0 reset) = 0"
    by (simp_all add: eval_defs)
  have h: "1 \<le> setTimeVal (readPotentiometers 200 0 reset)"
          "setTimeVal (readPotentiometers 200 0 reset) \<le> 50"
    by (simp_all add: v)
  from weld_duration[OF h] v t h show ?thesis
    by simp
qed

text \<open>
  Claim C7, counterexample. The mapping of line 105 does not clamp: at power 0 it gives
  9433, not the 8500 of the nearest in-range power 10; at power 110 it gives \<open>-833\<close>, not
  the value at power 100.
\<close>

theorem computeFiring_no_clamp:
  "computeFiring 0 = 9433 \<and> computeFiring (max 10 (min 100 0)) = 8500 \<and>
   computeFiring 110 = - 833 \<and> computeFiring (max 10 (min 100 110)) = 100"
  by (simp add: computeFiring_def map_long_def wrap16_def signed_divide_int_def)

text \<open>
  Claim C7, as amended. The mapping of line 105 is applied to the power setting as it is;
  out-of-range values are kept away from it upstream: for every raw power reading in
  \<open>[0, 1023]\<close> the power setting that \<^verbatim>\<open>readPotentiometers\<close> stores lies in
  \<open>[10, 100]\<close>, the firing delay it publishes is the mapping of that setting, and it
  lies in \<open>[0, 8500]\<close>.
\<close>

theorem power_in_range_before_mapping:
  assumes "0 \<le> rawPower" "rawPower \<le> 1023"
  shows "10 \<le> setPowerVal (readPotentiometers rawTime rawPower s) \<and>
         setPowerVal (readPotentiometers rawTime rawPower s) \<le> 100 \<and>
         firingDelay (readPotentiometers rawTime rawPower s) =
           computeFiring (setPowerVal (readPotentiometers rawTime rawPower s)) \<and>
         0 \<le> firingDelay (readPotentiometers rawTime rawPower s) \<and>
         firingDelay (readPotentiometers rawTime rawPower s) \<le> 8500"
proof -
  let ?p = "wrap16 (map_long rawPower 0 1023 10 100)"
  have p: "10 \<le> ?p" "?p \<le> 100"
    using setPowerVal_range[OF assms] by simp_all
  from computeFiring_range[OF p] p show ?thesis
    by (simp add: readPotentiometers_fields)
qed

text \<open>
  Witness for the amended C7: the raw reading 0 gives power 10 and firing delay 8500.
\<close>

theorem power_in_range_before_mapping_witness:
  "(0::int) \<le> 0 \<and> (0::int) \<le> 1023 \<and>
   setPowerVal (readPotentiometers 0 0 reset) = 10 \<and>
   firingDelay (readPotentiometers 0 0 reset) = 8500"
proof -
  have h: "(0::int) \<le> 0" "(0::int) \<le> 1023"
    by simp_all
  have v: "setPowerVal (readPotentiometers 0 0 reset) = 10"
    by (simp add: eval_defs)
  have c: "computeFiring 10 = 8500"
    by (simp add: eval_defs)
  from power_in_range_before_mapping[OF h, of 0 reset] v c show ?thesis
    by simp
qed

text \<open>
  Claim C8. On \<open>[10, 100]\<close> the firing delay does not increase when the power setting
  increases.
\<close>

theorem computeFiring_antimono:
  assumes "10 \<le> p1" "p1 \<le> p2" "p2 \<le> 100"
  shows "computeFiring p2 \<le> computeFiring p1"
proof -
  have "((100 - p2) * 8400) div 90 \<le> ((100 - p1) * 8400) div 90"
    using assms by (intro zdiv_mono1) auto
  then show ?thesis
    using assms by (simp add: computeFiring_eq)
qed

text \<open>
  Witness for C8: powers 55 and 56.
\<close>

theorem computeFiring_antimono_witness:
  "(10::int) \<le> 55 \<and> (55::int) \<le> 56 \<and> (56::int) \<le> 100 \<and>
   computeFiring 56 \<le> computeFiring 55 \<and> computeFiring 55 = 4300 \<and> computeFiring 56 = 4206"
proof -
  have h: "(10::int) \<le> 55" "(55::int) \<le> 56" "(56::int) \<le> 100"
    by simp_all
  have v: "computeFiring 55 = 4300" "computeFiring 56 = 4206"
    by (simp_all add: eval_defs)
  from computeFiring_antimono[OF h] v show ?thesis
    by simp
qed

text \<open>
  Claim C9. \<^verbatim>\<open>updateDisplay\<close> sends the time level times 100 plus the power
  setting, as the 16-bit \<^verbatim>\<open>int\<close> it is computed in, to the display, with the colon bit
  \<^verbatim>\<open>0b01000000\<close> (64) as the dots argument and leading zeros on. Whenever the number
  fits 16 bits, as it does for every time level in \<open>[1, 50]\<close> and power in
  \<open>[10, 100]\<close>, the value sent is the number itself.
\<close>

theorem display_value:
  "trace (updateDisplay s) =
     trace s @ [ShowNumberDecEx (wrap16 (setTimeVal s * 100 + setPowerVal s)) 64 True] \<and>
   (- 32768 \<le> setTimeVal s * 100 + setPowerVal s \<and>
    setTimeVal s * 100 + setPowerVal s \<le> 32767 \<longrightarrow>
      trace (updateDisplay s) =
        trace s @ [ShowNumberDecEx (setTimeVal s * 100 + setPowerVal s) 64 True]) \<and>
   (1 \<le> setTimeVal s \<and> setTimeVal s \<le> 50 \<and> 10 \<le> setPowerVal s \<and> setPowerVal s \<le> 100 \<longrightarrow>
      trace (updateDisplay s) =
        trace s @ [ShowNumberDecEx (setTimeVal s * 100 + setPowerVal s) 64 True])"
  by (simp add: updateDisplay_def Let_def emit_def wrap16_add_left wrap16_id)

text \<open>
  Witness for C9: time level 10 and power 99 are shown as 1099, the example of the
  comment at line 110.
\<close>

theorem display_value_witness:
  "- 32768 \<le> setTimeVal (readPotentiometers 200 1012 reset) * 100
                + setPowerVal (readPotentiometers 200 1012 reset) \<and>
   setTimeVal (readPotentiometers 200 1012 reset) * 100
                + setPowerVal (readPotentiometers 200 1012 reset) \<le> 32767 \<and>
   1 \<le> setTimeVal (readPotentiometers 200 1012 reset) \<and>
   setTimeVal (readPotentiometers 200 1012 reset) \<le> 50 \<and>
   10 \<le> setPowerVal (readPotentiometers 200 1012 reset) \<and>
   setPowerVal (readPotentiometers 200 1012 reset) \<le> 100 \<and>
   trace (updateDisplay (readPotentiometers 200 1012 reset)) = [ShowNumberDecEx 1099 64 True]"
proof -
  have v: "setTimeVal (readPotentiometers 200 1012 reset) = 10"
          "setPowerVal (readPotentiometers 200 1012 reset) = 99"
          "trace (readPotentiometers 200 1012 reset) = []"
    by (simp_all add: eval_defs)
  from display_value[of "readPotentiometers 200 1012 reset"] v show ?thesis
    by (simp add: wrap16_def)
qed

text \<open>
  Claim C10. The interrupt routine leaves every global variable of the sketch and the
  clock as they were; of the pins it can change only the triac pin; the hardware calls it
  adds to the trace are writes to the triac pin and busy-waits. The same holds for each
  single statement of the routine in the interleaved machine, and for its entry.
\<close>

theorem isr_frame:
  "globals (zeroCrossISR s) = globals s \<and>
   now (zeroCrossISR s) = now s \<and>
   pins (zeroCrossISR s) = (pins s)(PIN_TRIAC := pins (zeroCrossISR s) PIN_TRIAC) \<and>
   (\<exists>es. trace (zeroCrossISR s) = trace s @ es \<and> list_all isr_event es) \<and>
   globals (st (exec Isr m)) = globals (st m) \<and>
   globals (st (exec ZeroCross m)) = globals (st m)"
proof -
  have "globals (st (isr_step m)) = globals (st m)"
    by (cases "ipc m") (simp_all add: isr_step_def globals_def prim_defs)
  then show ?thesis
    by (auto simp: zeroCrossISR_def Let_def prim_defs globals_def)
qed

text \<open>
  Witness for C10: an interrupt during an active weld pulses the triac pin and changes
  nothing else.
\<close>

theorem isr_frame_witness:
  "globals (zeroCrossISR ((setup_sketch reset)\<lparr>weldingActive := True\<rparr>))
     = (False, 0, True, 0, 0, 0) \<and>
   pins (zeroCrossISR ((setup_sketch reset)\<lparr>weldingActive := True\<rparr>)) PIN_TRIAC = LOW"
proof -
  have g: "globals ((setup_sketch reset)\<lparr>weldingActive := True\<rparr>) = (False, 0, True, 0, 0, 0)"
    by (simp add: globals_def eval_defs)
  have p: "pins (zeroCrossISR ((setup_sketch reset)\<lparr>weldingActive := True\<rparr>)) PIN_TRIAC = LOW"
    by (simp add: eval_defs)
  from isr_frame[of "(setup_sketch reset)\<lparr>weldingActive := True\<rparr>" boot] g p show ?thesis
    by simp
qed

section \<open>The foot switch and its debounce\<close>

lemma debounced_iff:
  assumes "0 \<le> e" "e \<le> now s" "lastWeldTime s = e mod 4294967296"
  shows "debounced s \<longleftrightarrow> 500 < (now s - e) mod 4294967296"
proof -
  have "(now s mod 4294967296 - e mod 4294967296) mod 4294967296 = (now s - e) mod 4294967296"
    by (rule mod_diff_eq)
  then show ?thesis
    using assms(3) by (simp add: debounced_def millis_def DEBOUNCE_MS_def)
qed

lemma debounced_elapsed:
  assumes "0 \<le> e" "e \<le> now s" "lastWeldTime s = e mod 4294967296" "debounced s"
  shows "500 < now s - e"
proof -
  have "(now s - e) mod 4294967296 \<le> now s - e"
    using assms(2) by (intro zmod_le_nonneg_dividend) simp
  with debounced_iff[OF assms(1-3)] assms(4) show ?thesis
    by simp
qed

lemma not_debounced_within:
  assumes "0 \<le> e" "e \<le> now s" "lastWeldTime s = e mod 4294967296" "now s - e \<le> 500"
  shows "\<not> debounced s"
proof -
  have "(now s - e) mod 4294967296 = now s - e"
    using assms(2,4) by (intro mod_pos_pos_trivial) simp_all
  with debounced_iff[OF assms(1-3)] assms(4) show ?thesis
    by simp
qed

lemma loop_idle:
  assumes "\<not> (fs = LOW \<and> debounced s)"
  shows "loop rt rp fs s = updateDisplay (readPotentiometers rt rp s)"
  using assms by (auto simp: loop_def Let_def debounced_frame)

lemma loop_weld:
  assumes "fs = LOW" "debounced s"
  shows "loop rt rp fs s =
           (performWeld (updateDisplay (readPotentiometers rt rp s)))
             \<lparr>lastWeldTime := millis (performWeld (updateDisplay (readPotentiometers rt rp s)))\<rparr>"
  using assms by (simp add: loop_def Let_def debounced_frame)

lemma delays_idle:
  "delays (trace (updateDisplay (readPotentiometers rt rp s))) = delays (trace s)"
  by (simp add: updateDisplay_def Let_def emit_def readPotentiometers_fields delays_append)

lemma to_ulong_nonneg: "0 \<le> to_ulong v"
  by (simp add: to_ulong_def)

lemma loop_weld_fields:
  assumes "fs = LOW" "debounced s"
    and d: "d = to_ulong (wrap16 (wrap16 (map_long rt 0 1023 1 50) * 20))"
  shows "delays (trace (loop rt rp fs s)) = delays (trace s) @ [d]"
    and "now (loop rt rp fs s) = now s + d"
    and "lastWeldTime (loop rt rp fs s) = (now s + d) mod 4294967296"
    and "0 \<le> d"
  unfolding d
  by (simp_all add: loop_weld[OF assms(1,2)] performWeld_fields updateDisplay_fields
      readPotentiometers_fields delays_append delays_idle millis_def to_ulong_nonneg)

text \<open>
  Claim C6. Let the previous session have ended at time \<open>e\<close>, the value (modulo \<open>2^32\<close>)
  that line 86 left in \<^verbatim>\<open>lastWeldTime\<close> when \<^verbatim>\<open>performWeld\<close> returned. A pass of
  \<^verbatim>\<open>loop\<close> starts a session (adds a blocking delay to the trace) only if the foot
  switch reads engaged and more than 500 ms have gone by since \<open>e\<close>; within 500 ms of \<open>e\<close>
  it starts none, whatever the foot switch reads. When a pass starts a session of
  duration \<open>d\<close>, the session ends at \<open>now + d\<close>, that end is what \<^verbatim>\<open>lastWeldTime\<close>
  holds afterwards, and a pass at any time up to 500 ms after that end starts no further
  session.
\<close>

theorem debounce_from_session_end:
  assumes "0 \<le> e" "e \<le> now s" "lastWeldTime s = e mod 4294967296"
  shows "(delays (trace (loop rt rp fs s)) \<noteq> delays (trace s) \<longrightarrow>
            fs = LOW \<and> 500 < now s - e) \<and>
         (now s - e \<le> 500 \<longrightarrow>
            loop rt rp fs s = updateDisplay (readPotentiometers rt rp s) \<and>
            delays (trace (loop rt rp fs s)) = delays (trace s)) \<and>
         (fs = LOW \<and> debounced s \<longrightarrow>
            (\<exists>d\<ge>0. delays (trace (loop rt rp fs s)) = delays (trace s) @ [d] \<and>
                   now (loop rt rp fs s) = now s + d \<and>
                   lastWeldTime (loop rt rp fs s) = (now s + d) mod 4294967296 \<and>
                   (\<forall>dt rt' rp' fs'. 0 \<le> dt \<and> dt \<le> 500 \<longrightarrow>
                      delays (trace (loop rt' rp' fs'
                                ((loop rt rp fs s)\<lparr>now := now s + d + dt\<rparr>))) =
                      delays (trace s) @ [d])))"
proof (intro conjI impI)
  assume ne: "delays (trace (loop rt rp fs s)) \<noteq> delays (trace s)"
  have w: "fs = LOW \<and> debounced s"
  proof (rule ccontr)
    assume "\<not> (fs = LOW \<and> debounced s)"
    then have "loop rt rp fs s = updateDisplay (readPotentiometers rt rp s)"
      by (rule loop_idle)
    with ne show False
      by (simp add: delays_idle)
  qed
  then show "fs = LOW"
    by simp
  from w show "500 < now s - e"
    using debounced_elapsed[OF assms] by simp
next
  assume within: "now s - e \<le> 500"
  have "\<not> debounced s"
    using assms within by (rule not_debounced_within)
  then have idle: "loop rt rp fs s = updateDisplay (readPotentiometers rt rp s)"
    by (intro loop_idle) simp
  then show "loop rt rp fs s = updateDisplay (readPotentiometers rt rp s)" .
  from idle show "delays (trace (loop rt rp fs s)) = delays (trace s)"
    by (simp add: delays_idle)
next
  assume w: "fs = LOW \<and> debounced s"
  define d where "d = to_ulong (wrap16 (wrap16 (map_long rt 0 1023 1 50) * 20))"
  note f = loop_weld_fields[OF conjunct1[OF w] conjunct2[OF w] d_def]
  have later: "delays (trace (loop rt' rp' fs' ((loop rt rp fs s)\<lparr>now := now s + d + dt\<rparr>))) =
                 delays (trace s) @ [d]"
    if "0 \<le> dt \<and> dt \<le> 500" for dt rt' rp' fs'
  proof -
    let ?s1 = "(loop rt rp fs s)\<lparr>now := now s + d + dt\<rparr>"
    have e1: "0 \<le> now s + d"
      using assms(1,2) f(4) by simp
    have e2: "now s + d \<le> now ?s1"
      using that by simp
    have e3: "lastWeldTime ?s1 = (now s + d) mod 4294967296"
      using f(3) by simp
    have e4: "now ?s1 - (now s + d) \<le> 500"
      using that by simp
    have "\<not> debounced ?s1"
      using e1 e2 e3 e4 by (rule not_debounced_within)
    then have "loop rt' rp' fs' ?s1 = updateDisplay (readPotentiometers rt' rp' ?s1)"
      by (intro loop_idle) simp
    then show ?thesis
      using f(1) by (simp add: delays_idle)
  qed
  show "\<exists>d\<ge>0. delays (trace (loop rt rp fs s)) = delays (trace s) @ [d] \<and>
                   now (loop rt rp fs s) = now s + d \<and>
                   lastWeldTime (loop rt rp fs s) = (now s + d) mod 4294967296 \<and>
                   (\<forall>dt rt' rp' fs'. 0 \<le> dt \<and> dt \<le> 500 \<longrightarrow>
                      delays (trace (loop rt' rp' fs'
                                ((loop rt rp fs s)\<lparr>now := now s + d + dt\<rparr>))) =
                      delays (trace s) @ [d])"
    using f later by (intro exI[of _ d]) blast
qed

lemma boot_state:
  "now (setup_sketch reset) = 1000" "lastWeldTime (setup_sketch reset) = 0"
  "trace (setup_sketch reset) = [PinMode PIN_TRIAC OUTPUT, DigitalWrite PIN_TRIAC LOW,
     PinMode PIN_FOOT_SW INPUT_PULLUP, PinMode PIN_ZERO_CROSS INPUT,
     AttachInterrupt PIN_ZERO_CROSS, SetBrightness 15, SetSegments [118, 48, 0, 0], Delay 1000]"
  "weldingActive (setup_sketch reset) = False"
  "pins (setup_sketch reset) PIN_TRIAC = LOW"
  by (simp_all add: setup_sketch_def reset_def Let_def prim_defs)

text \<open>
  Witness for C6: at boot (time 1000, no session yet) an engaged foot switch starts a
  session of 1000 ms, which ends at time 2000; the next pass, with the switch still
  engaged, starts none.
\<close>

theorem debounce_from_session_end_witness:
  "(0::int) \<le> 0 \<and> 0 \<le> now (setup_sketch reset) \<and>
   lastWeldTime (setup_sketch reset) = 0 mod 4294967296 \<and>
   debounced (setup_sketch reset) \<and>
   delays (trace (loop 1023 1023 LOW (setup_sketch reset))) = [1000, 1000] \<and>
   delays (trace (loop 1023 1023 LOW (setup_sketch reset))) \<noteq> delays (trace (setup_sketch reset)) \<and>
   500 < now (setup_sketch reset) - 0 \<and>
   2000 \<le> now (loop 1023 1023 LOW (setup_sketch reset)) \<and>
   lastWeldTime (loop 1023 1023 LOW (setup_sketch reset)) = 2000 mod 4294967296 \<and>
   now (loop 1023 1023 LOW (setup_sketch reset)) - 2000 \<le> 500 \<and>
   delays (trace (loop 1023 1023 LOW (loop 1023 1023 LOW (setup_sketch reset)))) = [1000, 1000]"
proof -
  let ?s = "setup_sketch reset"
  let ?s1 = "loop 1023 1023 LOW ?s"
  have h: "(0::int) \<le> 0" "0 \<le> now ?s" "lastWeldTime ?s = 0 mod 4294967296"
    by (simp_all add: boot_state)
  have deb: "debounced ?s"
    by (simp add: debounced_def millis_def DEBOUNCE_MS_def boot_state)
  have d: "to_ulong (wrap16 (wrap16 (map_long 1023 0 1023 1 50) * 20)) = 1000"
    by (simp add: to_ulong_def wrap16_def map_long_def signed_divide_int_def)
  have f: "delays (trace ?s1) = [1000, 1000]" "now ?s1 = 2000" "lastWeldTime ?s1 = 2000"
    using loop_weld_fields(1-3)[OF refl deb d[symmetric], of 1023]
    by (simp_all add: boot_state)
  have h1: "(0::int) \<le> 2000" "2000 \<le> now ?s1" "lastWeldTime ?s1 = 2000 mod 4294967296"
    by (simp_all add: f)
  from debounce_from_session_end[OF h, of 1023 1023 LOW]
       debounce_from_session_end[OF h1, of 1023 1023 LOW]
       h deb f
  show ?thesis
    by (simp add: boot_state delays_idle)
qed

section \<open>The triac pin under interrupts\<close>

lemmas machine_defs = main_step_def isr_step_def boot_def weld_with_interrupts_def attached_def

text \<open>The statements of \<^verbatim>\<open>setup\<close>, run with no interrupt, do what \<open>setup_sketch\<close>
  does, and leave the main program at the head of \<^verbatim>\<open>loop\<close>.\<close>

lemma setup_run:
  "run setup_actions boot =
     \<lparr>st = setup_sketch reset, mpc = L_readTime, ipc = I_none, weldDuration = 0\<rparr>"
  by (simp add: setup_actions_def boot_def main_step_def setup_sketch_def Let_def)

lemma weld_with_interrupts_run:
  "mpc (run weld_with_interrupts boot) = W_triacLow"
  "ipc (run weld_with_interrupts boot) = I_none"
  "weldingActive (st (run weld_with_interrupts boot)) = False"
  "pins (st (run weld_with_interrupts boot)) PIN_TRIAC = LOW"
  "DigitalWrite PIN_TRIAC HIGH \<in> set (trace (st (run weld_with_interrupts boot)))"
  by (simp_all add: machine_defs eval_defs)

text \<open>
  Claim C1. When \<^verbatim>\<open>performWeld\<close> returns, \<^verbatim>\<open>weldingActive\<close> is false and the triac
  pin is low, and the last hardware call is the write of line 125: for the function run
  without interrupts from any state, and in the interleaved machine for every schedule of
  zero crossings, interrupt statements and main statements from reset. There, the
  statement at line 125 always leads to the return (the point before line 86), and
  whenever the main program stands at that point the flag is false and the pin low.
\<close>

theorem triac_low_when_weld_returns:
  "\<not> weldingActive (performWeld s) \<and> pins (performWeld s) PIN_TRIAC = LOW \<and>
   last (trace (performWeld s)) = DigitalWrite PIN_TRIAC LOW \<and>
   (mpc (run acts boot) = W_triacLow \<and> ipc (run acts boot) = I_none \<longrightarrow>
      mpc (exec (Main a d) (run acts boot)) = L_stamp \<and>
      last (trace (st (exec (Main a d) (run acts boot)))) = DigitalWrite PIN_TRIAC LOW) \<and>
   (mpc (run acts boot) = L_stamp \<longrightarrow>
      \<not> weldingActive (st (run acts boot)) \<and> pins (st (run acts boot)) PIN_TRIAC = LOW)"
proof (intro conjI impI)
  show "\<not> weldingActive (performWeld s)" "pins (performWeld s) PIN_TRIAC = LOW"
    "last (trace (performWeld s)) = DigitalWrite PIN_TRIAC LOW"
    by (simp_all add: performWeld_fields)
next
  assume "mpc (run acts boot) = W_triacLow \<and> ipc (run acts boot) = I_none"
  then show "mpc (exec (Main a d) (run acts boot)) = L_stamp"
    "last (trace (st (exec (Main a d) (run acts boot)))) = DigitalWrite PIN_TRIAC LOW"
    by (simp_all add: main_step_def prim_defs)
next
  assume at: "mpc (run acts boot) = L_stamp"
  have s: "safe (run acts boot)"
    by (rule safe_reachable)
  with at show off: "\<not> weldingActive (st (run acts boot))"
    by (simp add: safe_def)
  with s show "pins (st (run acts boot)) PIN_TRIAC = LOW"
    by (rule inactive_low)
qed

text \<open>
  Witness for C1: the example schedule, in which the interrupt routine has pulsed the
  triac during the weld, followed by the statement of line 125.
\<close>

theorem triac_low_when_weld_returns_witness:
  "mpc (run weld_with_interrupts boot) = W_triacLow \<and>
   ipc (run weld_with_interrupts boot) = I_none \<and>
   DigitalWrite PIN_TRIAC HIGH \<in> set (trace (st (run weld_with_interrupts boot))) \<and>
   mpc (run (weld_with_interrupts @ [Main 0 LOW]) boot) = L_stamp \<and>
   \<not> weldingActive (st (run (weld_with_interrupts @ [Main 0 LOW]) boot)) \<and>
   pins (st (run (weld_with_interrupts @ [Main 0 LOW]) boot)) PIN_TRIAC = LOW \<and>
   last (trace (st (run (weld_with_interrupts @ [Main 0 LOW]) boot))) = DigitalWrite PIN_TRIAC LOW"
proof -
  have h: "mpc (run weld_with_interrupts boot) = W_triacLow \<and>
           ipc (run weld_with_interrupts boot) = I_none"
    by (simp add: weld_with_interrupts_run)
  have e: "run (weld_with_interrupts @ [Main 0 LOW]) boot =
             exec (Main 0 LOW) (run weld_with_interrupts boot)"
    by (simp add: run_append)
  from triac_low_when_weld_returns[of "setup_sketch reset" weld_with_interrupts 0 LOW]
  have a: "mpc (exec (Main 0 LOW) (run weld_with_interrupts boot)) = L_stamp"
          "last (trace (st (exec (Main 0 LOW) (run weld_with_interrupts boot))))
             = DigitalWrite PIN_TRIAC LOW"
    using h by simp_all
  from triac_low_when_weld_returns[of "setup_sketch reset" "weld_with_interrupts @ [Main 0 LOW]" 0 LOW]
  have b: "\<not> weldingActive (st (run (weld_with_interrupts @ [Main 0 LOW]) boot))"
          "pins (st (run (weld_with_interrupts @ [Main 0 LOW]) boot)) PIN_TRIAC = LOW"
    using a(1) by (simp_all only: e simp_thms)
  from h a b show ?thesis
    by (simp only: e weld_with_interrupts_run simp_thms)
qed

text \<open>
  Claim C2. While \<^verbatim>\<open>weldingActive\<close> is false the interrupt routine returns the state
  as it found it: no busy-wait, no write to the triac pin, nothing added to the trace. In
  the interleaved machine the routine is left after its first statement. And in every
  state the machine can reach from reset, \<^verbatim>\<open>setup\<close> included, the triac pin is low whenever
  \<^verbatim>\<open>weldingActive\<close> is false.
\<close>

theorem isr_idle_when_inactive:
  "(\<not> weldingActive s \<longrightarrow> zeroCrossISR s = s) \<and>
   (ipc m = I_none \<and> \<not> weldingActive (st m) \<longrightarrow> run [ZeroCross, Isr] m = m) \<and>
   (\<not> weldingActive (st (run acts boot)) \<longrightarrow> pins (st (run acts boot)) PIN_TRIAC = LOW)"
proof (intro conjI impI)
  assume "\<not> weldingActive s"
  then show "zeroCrossISR s = s"
    by (simp add: zeroCrossISR_def)
next
  assume "ipc m = I_none \<and> \<not> weldingActive (st m)"
  then show "run [ZeroCross, Isr] m = m"
    by (cases m) (simp add: isr_step_def)
next
  assume "\<not> weldingActive (st (run acts boot))"
  with safe_reachable show "pins (st (run acts boot)) PIN_TRIAC = LOW"
    by (rule inactive_low)
qed

text \<open>
  Witness for C2: after \<^verbatim>\<open>setup\<close> the weld is inactive, and an interrupt leaves the
  state as it is; so does a zero crossing at reset; at the end of the example schedule
  the weld has been disarmed, line 125 has not run yet, and the pin is low.
\<close>

theorem isr_idle_when_inactive_witness:
  "\<not> weldingActive (setup_sketch reset) \<and>
   zeroCrossISR (setup_sketch reset) = setup_sketch reset \<and>
   ipc boot = I_none \<and> \<not> weldingActive (st boot) \<and> run [ZeroCross, Isr] boot = boot \<and>
   \<not> weldingActive (st (run weld_with_interrupts boot)) \<and>
   pins (st (run weld_with_interrupts boot)) PIN_TRIAC = LOW"
proof -
  have h1: "\<not> weldingActive (setup_sketch reset)"
    by (simp add: boot_state)
  have h2: "ipc boot = I_none \<and> \<not> weldingActive (st boot)"
    by (simp add: boot_def reset_def)
  have h3: "\<not> weldingActive (st (run weld_with_interrupts boot))"
    by (simp add: weld_with_interrupts_run)
  from isr_idle_when_inactive[of "setup_sketch reset" boot weld_with_interrupts] h1 h2 h3
  show ?thesis
    by (simp only: simp_thms)
qed

end
